theory Spec2Isabelle
  imports Main
begin

section \<open>Errors and external processes\<close>

text \<open>
  The program raises \<^verbatim>\<open>ProcessException(returncode)\<close> when a subprocess exits with a
  nonzero status, lets \<^verbatim>\<open>OSError\<close> escape when the executable cannot be started, and
  terminates through \<^verbatim>\<open>error(msg, code)\<close>, which prints the message and calls
  \<^verbatim>\<open>sys.exit(code)\<close>. Calling a method on a backend that was never detected is an
  \<^verbatim>\<open>AttributeError\<close>. Every one of them is a value of the type \<open>error\<close>; a function
  that can raise returns \<open>error + 'a\<close>.
\<close>

datatype error =
    ProcessException int
  | OSError int
  | SystemExit string int
  | AttributeError

text \<open>
  What starting a subprocess can do: fail to start with an errno, or run and exit with a
  return code after writing its standard output.
\<close>

datatype proc = SpawnFailed int | Exited int string

type_synonym shell = "string list \<Rightarrow> proc"

definition EPERM :: int where
  "EPERM = 1"

definition hg_cmd :: string where
  "hg_cmd = ''hg''"

definition git_cmd :: string where
  "git_cmd = ''git''"

definition could_not_execute :: "string \<Rightarrow> string" where
  \<open>could_not_execute c =
     ''Could not execute "'' @ c @ ''".\<newline>'' @
     ''Please verify that it's installed and accessible from your current path by executing "'' @
     c @ ''".\<newline>''\<close>

definition pquery :: "shell \<Rightarrow> string list \<Rightarrow> error + string" where
  "pquery sh command =
     (case sh command of
        SpawnFailed e \<Rightarrow>
          if e = EPERM then Inl (SystemExit (could_not_execute (hd command)) e)
          else Inl (OSError e)
      | Exited returncode stdout \<Rightarrow>
          if returncode \<noteq> 0 then Inl (ProcessException returncode) else Inr stdout)"

section \<open>The two backends\<close>

datatype scm = Hg | Git

definition Hg_dirty :: "shell \<Rightarrow> error + string" where
  "Hg_dirty sh = pquery sh [hg_cmd, ''status'', ''-q'']"

definition Git_dirty :: "shell \<Rightarrow> error + string" where
  "Git_dirty sh = pquery sh [git_cmd, ''diff'', ''--name-only'', ''HEAD'']"

definition Hg_outgoing :: "shell \<Rightarrow> error + bool" where
  "Hg_outgoing sh =
     (case pquery sh [hg_cmd, ''outgoing''] of
        Inr _ \<Rightarrow> Inr True
      | Inl (ProcessException e) \<Rightarrow> if e \<noteq> 1 then Inl (ProcessException e) else Inr False
      | Inl other \<Rightarrow> Inl other)"

definition Git_outgoing :: "shell \<Rightarrow> error + bool" where
  "Git_outgoing sh =
     (case pquery sh [git_cmd, ''log'', ''origin..''] of
        Inr out \<Rightarrow> Inr (if out \<noteq> [] then True else False)
      | Inl (ProcessException e) \<Rightarrow> if e \<noteq> 1 then Inl (ProcessException e) else Inr True
      | Inl other \<Rightarrow> Inl other)"

definition Hg_isdetached :: "shell \<Rightarrow> error + bool" where
  "Hg_isdetached sh = Inr False"

text \<open>
  \<^verbatim>\<open>str.strip()\<close> of a Python 2 byte string removes leading and trailing
  whitespace: space, tab, newline, carriage return, vertical tab and form feed.
\<close>

definition py_space :: "char \<Rightarrow> bool" where
  "py_space c = (c \<in> set [CHR '' '', CHR 0x09, CHR 0x0A, CHR 0x0D, CHR 0x0B, CHR 0x0C])"

definition lstrip :: "string \<Rightarrow> string" where
  "lstrip s = dropWhile py_space s"

definition rstrip :: "string \<Rightarrow> string" where
  "rstrip s = rev (dropWhile py_space (rev s))"

definition strip :: "string \<Rightarrow> string" where
  "strip s = rstrip (lstrip s)"

definition Git_isdetached :: "shell \<Rightarrow> error + bool" where
  "Git_isdetached sh =
     (case pquery sh [git_cmd, ''rev-parse'', ''--symbolic-full-name'', ''--abbrev-ref'', ''HEAD''] of
        Inl e \<Rightarrow> Inl e
      | Inr out \<Rightarrow> Inr (strip out = ''HEAD''))"

definition scm_name :: "scm \<Rightarrow> string" where
  "scm_name s = (case s of Hg \<Rightarrow> ''hg'' | Git \<Rightarrow> ''git'')"

definition scm_dirty :: "scm \<Rightarrow> shell \<Rightarrow> error + string" where
  "scm_dirty s sh = (case s of Hg \<Rightarrow> Hg_dirty sh | Git \<Rightarrow> Git_dirty sh)"

definition scm_outgoing :: "scm \<Rightarrow> shell \<Rightarrow> error + bool" where
  "scm_outgoing s sh = (case s of Hg \<Rightarrow> Hg_outgoing sh | Git \<Rightarrow> Git_outgoing sh)"

definition scm_isdetached :: "scm \<Rightarrow> shell \<Rightarrow> error + bool" where
  "scm_isdetached s sh = (case s of Hg \<Rightarrow> Hg_isdetached sh | Git \<Rightarrow> Git_isdetached sh)"

section \<open>The repository object\<close>

text \<open>
  The attributes of \<^verbatim>\<open>Repo\<close> that the operations below read. \<open>url\<close> and \<open>hash\<close> are
  \<^verbatim>\<open>None\<close> or a string; \<open>scm\<close> is \<^verbatim>\<open>None\<close> until a backend's marker directory was
  found.
\<close>

record repo =
  name :: string
  path :: string
  url :: "string option"
  hash :: "string option"
  is_local :: bool
  scm :: "scm option"

text \<open>\<^verbatim>\<open>self.scm.dirty()\<close> and its siblings: a method call on \<^verbatim>\<open>None\<close> raises.\<close>

definition repo_dirty :: "repo \<Rightarrow> shell \<Rightarrow> error + string" where
  "repo_dirty self sh = (case scm self of None \<Rightarrow> Inl AttributeError | Some s \<Rightarrow> scm_dirty s sh)"

definition repo_outgoing :: "repo \<Rightarrow> shell \<Rightarrow> error + bool" where
  "repo_outgoing self sh = (case scm self of None \<Rightarrow> Inl AttributeError | Some s \<Rightarrow> scm_outgoing s sh)"

definition repo_isdetached :: "repo \<Rightarrow> shell \<Rightarrow> error + bool" where
  "repo_isdetached self sh = (case scm self of None \<Rightarrow> Inl AttributeError | Some s \<Rightarrow> scm_isdetached s sh)"

subsection \<open>The safety gate\<close>

definition preserving_local :: "repo \<Rightarrow> string" where
  \<open>preserving_local self =
     ''Preserving local library "'' @ name self @ ''" in "'' @ path self @
     ''".\<newline>Please publish this library to a remote URL to be able to restore it at any time.'' @
     ''You can use --ignore switch to ignore all local libraries and update only the published ones.\<newline>'' @
     ''You can also use --force switch to remove all local libraries. WARNING: This action cannot be undone.''\<close>

definition uncommitted_changes :: "repo \<Rightarrow> string" where
  \<open>uncommitted_changes self =
     ''Uncommitted changes in "'' @ name self @ ''" in "'' @ path self @
     ''".\<newline>Please discard or stash them first and then retry update.\<newline>'' @
     ''You can also use --clean switch to discard all uncommitted changes. WARNING: This action cannot be undone.''\<close>

definition unpublished_changes :: "repo \<Rightarrow> string" where
  \<open>unpublished_changes self =
     ''Unpublished changes in "'' @ name self @ ''" in "'' @ path self @
     ''".\<newline>Please publish them first using the "publish" command.\<newline>'' @
     ''You can also use --force to discard all local commits and replace the library with the one included in this revision. WARNING: This action cannot be undone.''\<close>

text \<open>
  \<^verbatim>\<open>Repo.can_update(clean, force)\<close>. The \<^verbatim>\<open>if/elif/elif\<close> chain evaluates
  \<^verbatim>\<open>self.scm.dirty()\<close> only when \<^verbatim>\<open>clean\<close> is false and \<^verbatim>\<open>self.scm.outgoing()\<close> only
  when \<^verbatim>\<open>force\<close> is false; a query that raises ends the call.
\<close>

definition can_update :: "repo \<Rightarrow> shell \<Rightarrow> bool \<Rightarrow> bool \<Rightarrow> error + (bool \<times> string)" where
  "can_update self sh clean force =
     (if (is_local self \<or> url self = None) \<and> \<not> force then Inr (False, preserving_local self)
      else
        (case (if \<not> clean then repo_dirty self sh else Inr []) of
           Inl e \<Rightarrow> Inl e
         | Inr d \<Rightarrow>
             if d \<noteq> [] then Inr (False, uncommitted_changes self)
             else
               (case (if \<not> force then repo_outgoing self sh else Inr False) of
                  Inl e \<Rightarrow> Inl e
                | Inr og \<Rightarrow>
                    if og then Inr (False, unpublished_changes self) else Inr (True, ''OK''))))"

subsection \<open>Loading the repository of the current directory\<close>

definition cannot_find :: "string \<Rightarrow> string" where
  \<open>cannot_find cwd =
     ''Cannot find the program or library in the current path "'' @ cwd @ ''".\<newline>'' @
     ''Please change your working directory to a different location or use "mbed new" to create a new program.''\<close>

text \<open>
  \<^verbatim>\<open>Repo.fromrepo()\<close> without a path. \<open>found\<close> is what \<^verbatim>\<open>Repo.findrepo(os.getcwd())\<close>
  returns and \<open>synced p\<close> is the object after \<^verbatim>\<open>repo.sync()\<close> has read the directory
  \<open>p\<close>; both come from the file system.
\<close>

definition fromrepo :: "string option \<Rightarrow> (string \<Rightarrow> repo) \<Rightarrow> string \<Rightarrow> error + repo" where
  "fromrepo found synced cwd =
     (case found of
        None \<Rightarrow> Inl (SystemExit (cannot_find cwd) 1)
      | Some p \<Rightarrow>
          let r = synced p in
          if scm r = None then Inl (SystemExit ''Current folder is not a supported repository'' (- 1))
          else Inr r)"

section \<open>update: the detached-head check\<close>

definition detached_head :: "string \<Rightarrow> string \<Rightarrow> string" where
  \<open>detached_head cwd_type scmname =
     ''This '' @ cwd_type @
     '' is in detached HEAD state, and you won't be able to receive updates from the remote repository until you either checkout a branch or create a new one.\<newline>'' @
     ''You can checkout a branch using "'' @ scmname @
     '' checkout <branch_name>" command before running "mbed update".''\<close>

text \<open>\<^verbatim>\<open>not rev\<close>: \<^verbatim>\<open>rev\<close> is \<^verbatim>\<open>None\<close> or the empty string.\<close>

definition py_not :: "string option \<Rightarrow> bool" where
  "py_not v = (case v of None \<Rightarrow> True | Some s \<Rightarrow> s = [])"

text \<open>
  The first statements of \<^verbatim>\<open>update(rev, clean, force, ignore, top)\<close>, up to and including
  the detached-head check (\<open>revision\<close> and \<open>toplevel\<close> are the source's \<^verbatim>\<open>rev\<close> and
  \<^verbatim>\<open>top\<close>, names that HOL already uses). \<open>sync_cmd\<close> is the outcome of the \<^verbatim>\<open>sync()\<close> command that a
  top-level clean update runs first. The result is the error raised, or the repository the
  rest of \<^verbatim>\<open>update\<close> goes on with.
\<close>

definition update_begin ::
  "error + unit \<Rightarrow> string option \<Rightarrow> (string \<Rightarrow> repo) \<Rightarrow> string \<Rightarrow> string \<Rightarrow> shell \<Rightarrow>
     string option \<Rightarrow> bool \<Rightarrow> bool \<Rightarrow> error + repo" where
  "update_begin sync_cmd found synced cwd cwd_type sh revision clean toplevel =
     (case (if toplevel \<and> clean then sync_cmd else Inr ()) of
        Inl e \<Rightarrow> Inl e
      | Inr _ \<Rightarrow>
         (case fromrepo found synced cwd of
            Inl e \<Rightarrow> Inl e
          | Inr r \<Rightarrow>
             (case (if toplevel \<and> py_not revision then repo_isdetached r sh else Inr False) of
                Inl e \<Rightarrow> Inl e
              | Inr d \<Rightarrow>
                  if d then
                    (case scm r of
                       None \<Rightarrow> Inl AttributeError
                     | Some s \<Rightarrow> Inl (SystemExit (detached_head cwd_type (scm_name s)) 1))
                  else Inr r)))"

section \<open>Regular expressions\<close>

text \<open>
  The patterns of the program, matched as \<^verbatim>\<open>re.match\<close> does: a backtracking search
  that returns the first success in priority order (the left alternative first, a greedy
  repetition longest first, a lazy one shortest first). \<open>rmatch\<close> lists every way a
  pattern matches a prefix of the input, in that order, each with the rest of the input and
  the groups captured; \<^verbatim>\<open>re.match\<close> returns the first. Repetition is over single
  character classes, which is all the program's patterns use. \<^verbatim>\<open>$\<close> matches at the end
  of the input and before a final newline; \<^verbatim>\<open>.\<close> is any character but a newline;
  \<^verbatim>\<open>\w\<close> is a letter, a digit or the underscore.
\<close>

type_synonym cls = "char \<Rightarrow> bool"

datatype rx =
    Eps
  | One cls
  | Seq rx rx
  | Alt rx rx
  | Grp nat rx
  | Rep bool nat "nat option" cls
  | Bos
  | Eos

type_synonym caps = "(nat \<times> string) list"

definition rep_rests :: "bool \<Rightarrow> nat \<Rightarrow> nat option \<Rightarrow> cls \<Rightarrow> string \<Rightarrow> string list" where
  "rep_rests greedy lo hi p s =
     (let n = length (takeWhile p s);
          m = (case hi of None \<Rightarrow> n | Some h \<Rightarrow> min h n);
          ks = [lo ..< Suc m]
      in map (\<lambda>k. drop k s) (if greedy then rev ks else ks))"

fun rmatch :: "nat \<Rightarrow> rx \<Rightarrow> string \<Rightarrow> caps \<Rightarrow> (string \<times> caps) list" where
  "rmatch n Eps s c = [(s, c)]"
| "rmatch n (One p) s c = (case s of [] \<Rightarrow> [] | x # xs \<Rightarrow> if p x then [(xs, c)] else [])"
| "rmatch n (Seq a b) s c = concat (map (\<lambda>(s', c'). rmatch n b s' c') (rmatch n a s c))"
| "rmatch n (Alt a b) s c = rmatch n a s c @ rmatch n b s c"
| "rmatch n (Grp k a) s c =
     map (\<lambda>(s', c'). (s', (k, take (length s - length s') s) # c')) (rmatch n a s c)"
| "rmatch n (Rep greedy lo hi p) s c = map (\<lambda>s'. (s', c)) (rep_rests greedy lo hi p s)"
| "rmatch n Bos s c = (if length s = n then [(s, c)] else [])"
| "rmatch n Eos s c = (if s = [] \<or> s = [CHR 0x0A] then [(s, c)] else [])"

definition re_match :: "rx \<Rightarrow> string \<Rightarrow> caps option" where
  "re_match r s = (case rmatch (length s) r s [] of [] \<Rightarrow> None | (s', c) # _ \<Rightarrow> Some c)"

definition group :: "caps \<Rightarrow> nat \<Rightarrow> string option" where
  "group m k = map_of m k"

definition chr :: "char \<Rightarrow> rx" where
  "chr x = One (\<lambda>c. c = x)"

definition lit :: "string \<Rightarrow> rx" where
  "lit s = foldr (\<lambda>x r. Seq (chr x) r) s Eps"

definition seqs :: "rx list \<Rightarrow> rx" where
  "seqs rs = foldr Seq rs Eps"

definition opt :: "rx \<Rightarrow> rx" where
  "opt r = Alt r Eps"

definition star :: "cls \<Rightarrow> rx" where
  "star p = Rep True 0 None p"

definition plus :: "cls \<Rightarrow> rx" where
  "plus p = Rep True 1 None p"

definition star_lazy :: "cls \<Rightarrow> rx" where
  "star_lazy p = Rep False 0 None p"

definition plus_lazy :: "cls \<Rightarrow> rx" where
  "plus_lazy p = Rep False 1 None p"

definition word :: cls where
  "word c = (c \<in> set ''abcdefghijklmnopqrstuvwxyzABCDEFGHIJKLMNOPQRSTUVWXYZ0123456789_'')"

definition dot :: cls where
  "dot c = (c \<noteq> CHR 0x0A)"


subsection \<open>The grammars of the program\<close>

definition word_plus_minus :: cls where
  "word_plus_minus c = (word c \<or> c = CHR ''+'' \<or> c = CHR ''-'')"

definition not_slash :: cls where
  "not_slash c = (c \<noteq> CHR ''/'')"

definition not_slash_colon :: cls where
  "not_slash_colon c = (c \<noteq> CHR ''/'' \<and> c \<noteq> CHR '':'')"

definition word_minus :: cls where
  "word_minus c = (word c \<or> c = CHR ''-'')"

definition https_opt :: rx where
  "https_opt = Seq (lit ''http'') (opt (chr CHR ''s''))"

text \<open>\<^verbatim>\<open>^([\w.+-][\w./+-]*?)/?(?:#(.*))?$\<close>\<close>

definition regex_local_ref :: rx where
  "regex_local_ref = seqs
     [Bos,
      Grp 1 (Seq (One (\<lambda>c. word c \<or> c = CHR ''.'' \<or> c = CHR ''+'' \<or> c = CHR ''-''))
                 (star_lazy (\<lambda>c. word c \<or> c = CHR ''.'' \<or> c = CHR ''/'' \<or> c = CHR ''+'' \<or> c = CHR ''-''))),
      opt (chr CHR ''/''),
      opt (Seq (chr CHR ''#'') (Grp 2 (star dot))),
      Eos]"

text \<open>\<^verbatim>\<open>^(.*/([\w+-]+)(?:\.\w+)?)/?(?:#(.*))?$\<close>\<close>

definition regex_url_ref :: rx where
  "regex_url_ref = seqs
     [Bos,
      Grp 1 (seqs [star dot, chr CHR ''/'', Grp 2 (plus word_plus_minus),
                   opt (Seq (chr CHR ''.'') (plus word))]),
      opt (chr CHR ''/''),
      opt (Seq (chr CHR ''#'') (Grp 3 (star dot))),
      Eos]"

text \<open>\<^verbatim>\<open>^(git@|git\://|ssh\://|https?\://)([^/:]+)[:/](.+?)(\.git|\/?)$\<close>\<close>

definition regex_git_url :: rx where
  "regex_git_url = seqs
     [Bos,
      Grp 1 (Alt (lit ''git@'') (Alt (lit ''git://'') (Alt (lit ''ssh://'') (Seq https_opt (lit ''://''))))),
      Grp 2 (plus not_slash_colon),
      One (\<lambda>c. c = CHR '':'' \<or> c = CHR ''/''),
      Grp 3 (plus_lazy dot),
      Grp 4 (Alt (lit ''.git'') (opt (chr CHR ''/''))),
      Eos]"

text \<open>\<^verbatim>\<open>^(file|ssh|https?)://([^/:]+)/([^/]+)/?([^/]+?)?$\<close>\<close>

definition regex_hg_url :: rx where
  "regex_hg_url = seqs
     [Bos,
      Grp 1 (Alt (lit ''file'') (Alt (lit ''ssh'') https_opt)),
      lit ''://'',
      Grp 2 (plus not_slash_colon),
      chr CHR ''/'',
      Grp 3 (plus not_slash),
      opt (chr CHR ''/''),
      opt (Grp 4 (plus_lazy not_slash)),
      Eos]"

text \<open>
  \<^verbatim>\<open>^(https?)://([\w\-\.]*mbed\.(co\.uk|org|com))/(users|teams)/([\w\-]{1,32})/(repos|code)/([\w\-]+)/?$\<close>
\<close>

definition regex_mbed_url :: rx where
  "regex_mbed_url = seqs
     [Bos,
      Grp 1 https_opt,
      lit ''://'',
      Grp 2 (seqs [star (\<lambda>c. word c \<or> c = CHR ''-'' \<or> c = CHR ''.''), lit ''mbed.'',
                   Grp 3 (Alt (lit ''co.uk'') (Alt (lit ''org'') (lit ''com'')))]),
      chr CHR ''/'',
      Grp 4 (Alt (lit ''users'') (lit ''teams'')),
      chr CHR ''/'',
      Grp 5 (Rep True 1 (Some 32) word_minus),
      chr CHR ''/'',
      Grp 6 (Alt (lit ''repos'') (lit ''code'')),
      chr CHR ''/'',
      Grp 7 (plus word_minus),
      opt (chr CHR ''/''),
      Eos]"

text \<open>\<^verbatim>\<open>^([\w+-]+)\=(.*)?$\<close>, the line format of the program's configuration file.\<close>

definition regex_cfg :: rx where
  "regex_cfg = seqs
     [Bos, Grp 1 (plus word_plus_minus), chr CHR ''='', opt (Grp 2 (star dot)), Eos]"

text \<open>\<^verbatim>\<open>"%s" % v\<close>: the string itself, or the text \<^verbatim>\<open>None\<close>.\<close>

definition str :: "string option \<Rightarrow> string" where
  "str v = (case v of None \<Rightarrow> ''None'' | Some s \<Rightarrow> s)"

text \<open>\<^verbatim>\<open>s.replace('\\', '/')\<close>\<close>

definition backslash_to_slash :: "string \<Rightarrow> string" where
  "backslash_to_slash s = map (\<lambda>c. if c = CHR 0x5C then CHR ''/'' else c) s"

definition Hg_isurl :: "string \<Rightarrow> bool" where
  "Hg_isurl u =
     (case re_match regex_url_ref (backslash_to_slash (strip u)) of
        Some m_url \<Rightarrow>
          re_match regex_hg_url (str (group m_url 1)) \<noteq> None \<or>
          re_match regex_mbed_url (str (group m_url 1)) \<noteq> None
      | None \<Rightarrow> False)"

definition Git_isurl :: "string \<Rightarrow> bool" where
  "Git_isurl u =
     (case re_match regex_url_ref (backslash_to_slash (strip u)) of
        Some m_url \<Rightarrow>
          re_match regex_git_url (str (group m_url 1)) \<noteq> None \<and>
          \<not> re_match regex_mbed_url (str (group m_url 1)) \<noteq> None
      | None \<Rightarrow> False)"

text \<open>
  \<^verbatim>\<open>formaturl(url, format)\<close>. The result depends on \<^verbatim>\<open>format\<close> only through the tests
  \<^verbatim>\<open>format == "ssh"\<close> and \<^verbatim>\<open>format == "http"\<close>; every other value, \<^verbatim>\<open>"https"\<close> and the
  default included, selects the https form.
\<close>

definition formaturl :: "string \<Rightarrow> string \<Rightarrow> string" where
  "formaturl u fmt =
     (case re_match regex_mbed_url u of
        Some m \<Rightarrow>
          (if fmt = ''http'' then ''http://'' else ''https://'') @
          str (group m 2) @ ''/'' @ str (group m 4) @ ''/'' @ str (group m 5) @ ''/'' @
          str (group m 6) @ ''/'' @ str (group m 7)
      | None \<Rightarrow>
         (case re_match regex_git_url u of
            Some m \<Rightarrow>
              if fmt = ''ssh'' then ''ssh://'' @ str (group m 2) @ ''/'' @ str (group m 3) @ ''.git''
              else if fmt = ''http'' then ''http://'' @ str (group m 2) @ ''/'' @ str (group m 3)
              else ''https://'' @ str (group m 2) @ ''/'' @ str (group m 3)
          | None \<Rightarrow>
             (case re_match regex_hg_url u of
                Some m \<Rightarrow>
                  if fmt = ''ssh'' then ''ssh://'' @ str (group m 2) @ ''/'' @ str (group m 3)
                  else if fmt = ''http'' then ''http://'' @ str (group m 2) @ ''/'' @ str (group m 3)
                  else ''https://'' @ str (group m 2) @ ''/'' @ str (group m 3)
              | None \<Rightarrow> u)))"


section \<open>Reference files\<close>

text \<open>\<^verbatim>\<open>os.path.basename\<close> and \<^verbatim>\<open>os.path.join\<close> of two components, on POSIX paths.\<close>

definition basename :: "string \<Rightarrow> string" where
  "basename p = rev (takeWhile (\<lambda>c. c \<noteq> CHR ''/'') (rev p))"

definition path_join :: "string \<Rightarrow> string \<Rightarrow> string" where
  "path_join a b =
     (if b \<noteq> [] \<and> hd b = CHR ''/'' then b
      else if a = [] \<or> last a = CHR ''/'' then a @ b
      else a @ ''/'' @ b)"

text \<open>\<^verbatim>\<open>path or default\<close>: the path unless it is \<^verbatim>\<open>None\<close> or empty.\<close>

definition or_else :: "string option \<Rightarrow> string \<Rightarrow> string" where
  "or_else p d = (case p of None \<Rightarrow> d | Some s \<Rightarrow> if s = [] then d else s)"

definition invalid_repository :: "string \<Rightarrow> string" where
  "invalid_repository u = ''Invalid repository ('' @ strip u @ '')''"

text \<open>
  \<^verbatim>\<open>Repo.fromurl(url, path)\<close>. \<open>abspath\<close> is \<^verbatim>\<open>os.path.abspath\<close> and \<open>cwd\<close> is
  \<^verbatim>\<open>os.getcwd()\<close>, both of the running process. The local grammar is tried first. A new
  object has the class default \<^verbatim>\<open>is_local = False\<close> and no backend.
\<close>

definition fromurl :: "(string \<Rightarrow> string) \<Rightarrow> string \<Rightarrow> string \<Rightarrow> string option \<Rightarrow> error + repo" where
  "fromurl abspath cwd u pth =
     (let m_local = re_match regex_local_ref (backslash_to_slash (strip u));
          m_url = re_match regex_url_ref (backslash_to_slash (strip u))
      in case m_local of
           Some ml \<Rightarrow>
             Inr \<lparr>name = basename (or_else pth (str (group ml 1))),
                  path = abspath (or_else pth (path_join cwd (str (group ml 1)))),
                  url = group ml 1,
                  hash = group ml 2,
                  is_local = True,
                  scm = None\<rparr>
         | None \<Rightarrow>
            (case m_url of
               Some mu \<Rightarrow>
                 Inr \<lparr>name = basename (or_else pth (str (group mu 2))),
                      path = abspath (or_else pth (path_join cwd (basename (or_else pth (str (group mu 2)))))),
                      url = Some (formaturl (str (group mu 1)) ''default''),
                      hash = group mu 3,
                      is_local = False,
                      scm = None\<rparr>
             | None \<Rightarrow> Inl (SystemExit (invalid_repository u) (- 1))))"

text \<open>\<^verbatim>\<open>s.rstrip('/')\<close>\<close>

definition rstrip_slash :: "string \<Rightarrow> string" where
  "rstrip_slash s = rev (dropWhile (\<lambda>c. c = CHR ''/'') (rev s))"

text \<open>
  The property \<^verbatim>\<open>Repo.fullurl\<close>: \<^verbatim>\<open>None\<close> when the URL is \<^verbatim>\<open>None\<close> or empty; the
  revision segment is written only for a non-empty hash.
\<close>

definition fullurl :: "repo \<Rightarrow> string option" where
  "fullurl self =
     (case url self of
        None \<Rightarrow> None
      | Some u \<Rightarrow>
          if u = [] then None
          else Some (rstrip_slash u @ ''/'' @
                 (case hash self of None \<Rightarrow> [] | Some h \<Rightarrow> if h = [] then [] else ''#'' @ h)))"

text \<open>
  \<^verbatim>\<open>Repo.write()\<close> on the reference file, whose previous content is \<open>old\<close> (\<^verbatim>\<open>None\<close> when
  the file does not exist). The file is left as it is when it already names the same URL
  (compared in https form) and the same hash or a prefix of it; otherwise it is
  overwritten with \<^verbatim>\<open>self.fullurl + '\n'\<close>. The result is the content of the file
  afterwards. \<^verbatim>\<open>TypeError\<close> is what \<^verbatim>\<open>None + '\n'\<close> raises.
\<close>

datatype write_error = Exit error | TypeError

definition same_hash :: "string option \<Rightarrow> string option \<Rightarrow> bool" where
  "same_hash lib_hash self_hash =
     (lib_hash = self_hash \<or>
      (case (lib_hash, self_hash) of
         (Some l, Some h) \<Rightarrow> l \<noteq> [] \<and> h \<noteq> [] \<and> l = take (length l) h
       | _ \<Rightarrow> False))"

definition write_new :: "repo \<Rightarrow> write_error + string" where
  "write_new self = (case fullurl self of None \<Rightarrow> Inl TypeError | Some f \<Rightarrow> Inr (f @ [CHR 0x0A]))"

definition Repo_write :: "(string \<Rightarrow> string) \<Rightarrow> string \<Rightarrow> repo \<Rightarrow> string option \<Rightarrow> write_error + string" where
  "Repo_write abspath cwd self old =
     (case old of
        None \<Rightarrow> write_new self
      | Some content \<Rightarrow>
         (case fromurl abspath cwd (strip content) None of
            Inl e \<Rightarrow> Inl (Exit e)
          | Inr lib_repo \<Rightarrow>
              if formaturl (str (url lib_repo)) ''https'' = formaturl (str (url self)) ''https''
                 \<and> same_hash (hash lib_repo) (hash self)
              then Inr content
              else write_new self))"

section \<open>The configuration file of a program\<close>

text \<open>\<^verbatim>\<open>str.splitlines()\<close> of a byte string: lines end at \<^verbatim>\<open>\n\<close>, \<^verbatim>\<open>\r\<close> or \<^verbatim>\<open>\r\n\<close>.\<close>

fun splitlines_from :: "string \<Rightarrow> string \<Rightarrow> string list" where
  "splitlines_from acc [] = (if acc = [] then [] else [rev acc])"
| "splitlines_from acc (c # cs) =
     (if c = CHR 0x0A then rev acc # splitlines_from [] cs
      else if c = CHR 0x0D then
        (case cs of
           [] \<Rightarrow> [rev acc]
         | d # ds \<Rightarrow> if d = CHR 0x0A then rev acc # splitlines_from [] ds
                     else rev acc # splitlines_from [] cs)
      else splitlines_from (c # acc) cs)"

definition splitlines :: "string \<Rightarrow> string list" where
  "splitlines s = splitlines_from [] s"

text \<open>\<^verbatim>\<open>'\n'.join(lines) + '\n'\<close>\<close>

fun join_lines :: "string list \<Rightarrow> string" where
  "join_lines [] = []"
| "join_lines [l] = l"
| "join_lines (l # ls) = l @ [CHR 0x0A] @ join_lines ls"

text \<open>
  The lines of the configuration file; a file that cannot be read gives no lines
  (the \<^verbatim>\<open>except:\<close> branch). The file is \<^verbatim>\<open>None\<close> when it cannot be read.
\<close>

definition read_lines :: "string option \<Rightarrow> string list" where
  "read_lines file = (case file of None \<Rightarrow> [] | Some content \<Rightarrow> splitlines content)"

definition is_var :: "string \<Rightarrow> string \<Rightarrow> bool" where
  "is_var var line =
     (case re_match regex_cfg line of None \<Rightarrow> False | Some m \<Rightarrow> group m 1 = Some var)"

text \<open>
  The loop \<^verbatim>\<open>for line in lines: ... lines.remove(line)\<close> of \<^verbatim>\<open>set_cfg\<close>. Python's list
  iterator holds an index \<open>i\<close> into the list it walks and stops when the index reaches the
  current length; \<^verbatim>\<open>lines.remove(line)\<close> deletes the first element equal to \<open>line\<close>
  from that same list.
\<close>

function set_cfg_loop :: "string \<Rightarrow> nat \<Rightarrow> string list \<Rightarrow> string list" where
  "set_cfg_loop var i lines =
     (if i < length lines then
        (if is_var var (lines ! i) then set_cfg_loop var (Suc i) (remove1 (lines ! i) lines)
         else set_cfg_loop var (Suc i) lines)
      else lines)"
  by pat_completeness auto
termination
  by (relation "measure (\<lambda>(var, i, lines). length lines - i)") (auto simp: length_remove1)

text \<open>\<^verbatim>\<open>Program.set_cfg(var, val)\<close>: the content of the file afterwards.\<close>

definition set_cfg :: "string option \<Rightarrow> string \<Rightarrow> string \<Rightarrow> string" where
  "set_cfg file var val =
     join_lines (set_cfg_loop var 0 (read_lines file) @ [var @ ''='' @ val]) @ [CHR 0x0A]"

text \<open>\<^verbatim>\<open>Program.get_cfg(var, default_val)\<close>\<close>

fun get_cfg_loop :: "string \<Rightarrow> string list \<Rightarrow> string option \<Rightarrow> string option" where
  "get_cfg_loop var [] default_val = default_val"
| "get_cfg_loop var (line # rest) default_val =
     (case re_match regex_cfg line of
        None \<Rightarrow> get_cfg_loop var rest default_val
      | Some m \<Rightarrow> if group m 1 = Some var then group m 2 else get_cfg_loop var rest default_val)"

definition get_cfg :: "string option \<Rightarrow> string \<Rightarrow> string option \<Rightarrow> string option" where
  "get_cfg file var default_val = get_cfg_loop var (read_lines file) default_val"

section \<open>publish\<close>

text \<open>
  \<^verbatim>\<open>popen(command)\<close>: run a command for its effect; a nonzero exit status raises.
\<close>

definition popen :: "shell \<Rightarrow> string list \<Rightarrow> error + unit" where
  "popen sh command =
     (case sh command of
        SpawnFailed e \<Rightarrow>
          if e = EPERM then Inl (SystemExit (could_not_execute (hd command)) e)
          else Inl (OSError e)
      | Exited returncode stdout \<Rightarrow>
          if returncode \<noteq> 0 then Inl (ProcessException returncode) else Inr ())"

text \<open>
  A Python argument that is \<^verbatim>\<open>None\<close>, \<^verbatim>\<open>True\<close> or \<^verbatim>\<open>False\<close>, as \<^verbatim>\<open>all\<close> and \<^verbatim>\<open>top\<close> of
  \<^verbatim>\<open>publish\<close> are, and its truth value.
\<close>

type_synonym flag = "bool option"

definition truthy :: "flag \<Rightarrow> bool" where
  "truthy v = (v = Some True)"

definition verbosity :: "bool \<Rightarrow> string list" where
  "verbosity verbose = (if verbose then [''-v''] else [''-q''])"

definition commit_command :: "scm \<Rightarrow> bool \<Rightarrow> string list" where
  "commit_command s verbose =
     (case s of
        Hg \<Rightarrow> [hg_cmd, ''commit''] @ verbosity verbose
      | Git \<Rightarrow> [git_cmd, ''commit'', ''-a''] @ verbosity verbose)"

definition push_command :: "scm \<Rightarrow> flag \<Rightarrow> bool \<Rightarrow> string list" where
  "push_command s all verbose =
     (case s of
        Hg \<Rightarrow> [hg_cmd, ''push''] @ (if truthy all then [''--new-branch''] else []) @ verbosity verbose
      | Git \<Rightarrow> [git_cmd, ''push''] @ (if truthy all then [''--all''] else []) @ verbosity verbose)"

text \<open>\<^verbatim>\<open>relpath(root, path)\<close> is \<^verbatim>\<open>path[len(root)+1:]\<close>.\<close>

definition relpath :: "string \<Rightarrow> string \<Rightarrow> string" where
  "relpath root p = drop (length root + 1) p"

text \<open>
  What \<^verbatim>\<open>publish\<close> does that can be observed from outside, in the order it happens: the
  messages of \<^verbatim>\<open>action\<close>, the spinner of \<^verbatim>\<open>progress\<close>, the \<^verbatim>\<open>sync(recursive=False)\<close>
  command run in a directory, the prompt of \<^verbatim>\<open>raw_input\<close>, and the commit and push
  commands run in a directory.
\<close>

datatype event =
    Action string
  | Progress
  | SyncCmd string
  | RawInput string
  | Popen string "string list"

text \<open>
  The working directories that \<^verbatim>\<open>publish\<close> walks. A node holds what the environment
  answers there: the object \<^verbatim>\<open>Repo.fromrepo()\<close> returns (or the error it raises), the
  entries of \<^verbatim>\<open>repo.libs\<close>, the outcome of every command of the backend run in the
  directory, and the outcome of \<^verbatim>\<open>sync(recursive=False)\<close>. An entry of \<^verbatim>\<open>repo.libs\<close> holds
  the message \<^verbatim>\<open>lib.check_repo()\<close> fails with (\<^verbatim>\<open>None\<close> when the library is a valid
  repository) and the node of the library's directory.
\<close>

datatype node = Node "error + repo" "(string option \<times> node) list" shell "error + unit"

definition local_repository :: "flag \<Rightarrow> repo \<Rightarrow> string \<Rightarrow> string" where
  \<open>local_repository top_flag r scmname =
     (if truthy top_flag then ''Program'' else ''Library'') @ '' "'' @ name r @ ''" in "'' @ path r @
     ''" is a local repository.\<newline>Please associate it with a remote repository URL before attempting to publish.\<newline>'' @
     ''Read more about '' @ scmname @
     '' repositories here:\<newline>http://developer.mbed.org/handbook/how-to-publish-with-'' @
     scmname @ ''/''\<close>

text \<open>
  The statements of \<^verbatim>\<open>publish\<close> before the loop over the libraries: the message of a
  top-level call, \<^verbatim>\<open>Repo.fromrepo()\<close>, and the refusal of a local repository.
\<close>

definition publish_enter :: "flag \<Rightarrow> error + repo \<Rightarrow> event list \<times> (error + repo)" where
  "publish_enter top_flag loaded =
     ((if truthy top_flag then [Action ''Checking for local modifications...''] else []),
      (case loaded of
         Inl e \<Rightarrow> Inl e
       | Inr r \<Rightarrow>
           if is_local r then
             (case scm r of
                None \<Rightarrow> Inl AttributeError
              | Some s \<Rightarrow> Inl (SystemExit (local_repository top_flag r (scm_name s)) 1))
           else Inr r))"

definition uncommitted_in :: "string \<Rightarrow> repo \<Rightarrow> string" where
  \<open>uncommitted_in cwd_root r =
     ''Uncommitted changes in "'' @ name r @ ''" ('' @ relpath cwd_root (path r) @ '')''\<close>

definition pushing :: "repo \<Rightarrow> string" where
  \<open>pushing r =
     ''Pushing local repository "'' @ name r @ ''" to remote "'' @ str (url r) @ ''"''\<close>

text \<open>\<^verbatim>\<open>if repo.scm.dirty(): action(...); raw_input(...); repo.scm.commit()\<close>\<close>

definition publish_commit :: "bool \<Rightarrow> string \<Rightarrow> repo \<Rightarrow> shell \<Rightarrow> event list \<times> (error + unit)" where
  "publish_commit verbose cwd_root r sh =
     (case repo_dirty r sh of
        Inl e \<Rightarrow> ([], Inl e)
      | Inr d \<Rightarrow>
          if d \<noteq> [] then
            (case scm r of
               None \<Rightarrow> ([], Inl AttributeError)
             | Some s \<Rightarrow>
                 ([Action (uncommitted_in cwd_root r), RawInput ''Press enter to commit and push: '',
                   Popen (path r) (commit_command s verbose)],
                  popen sh (commit_command s verbose)))
          else ([], Inr ()))"

text \<open>
  \<^verbatim>\<open>try: if repo.scm.outgoing(): action(...); repo.scm.push(repo, all)\<close>, with
  \<^verbatim>\<open>except ProcessException as e: if e[0] != 1: raise\<close>.
\<close>

definition swallow_exit_1 :: "error + unit \<Rightarrow> error + unit" where
  "swallow_exit_1 res =
     (case res of
        Inl (ProcessException e) \<Rightarrow> if e \<noteq> 1 then Inl (ProcessException e) else Inr ()
      | other \<Rightarrow> other)"

definition publish_push :: "bool \<Rightarrow> flag \<Rightarrow> repo \<Rightarrow> shell \<Rightarrow> event list \<times> (error + unit)" where
  "publish_push verbose all r sh =
     (case repo_outgoing r sh of
        Inl e \<Rightarrow> ([], swallow_exit_1 (Inl e))
      | Inr og \<Rightarrow>
          if og then
            (case scm r of
               None \<Rightarrow> ([], Inl AttributeError)
             | Some s \<Rightarrow>
                 ([Action (pushing r), Popen (path r) (push_command s all verbose)],
                  swallow_exit_1 (popen sh (push_command s all verbose))))
          else ([], Inr ()))"

text \<open>The statements of \<^verbatim>\<open>publish\<close> after the loop: sync, commit, push.\<close>

definition publish_finish ::
  "bool \<Rightarrow> string \<Rightarrow> flag \<Rightarrow> repo \<Rightarrow> shell \<Rightarrow> error + unit \<Rightarrow> event list \<times> (error + unit)" where
  "publish_finish verbose cwd_root all r sh synced =
     (case synced of
        Inl e \<Rightarrow> ([SyncCmd (path r)], Inl e)
      | Inr _ \<Rightarrow>
         (case publish_commit verbose cwd_root r sh of
            (ev1, Inl e) \<Rightarrow> (SyncCmd (path r) # ev1, Inl e)
          | (ev1, Inr _) \<Rightarrow>
             (case publish_push verbose all r sh of
                (ev2, res) \<Rightarrow> (SyncCmd (path r) # ev1 @ ev2, res))))"

text \<open>
  \<^verbatim>\<open>publish(all, top)\<close> in the directory of a node, and its loop over \<^verbatim>\<open>repo.libs\<close>. The
  loop calls \<^verbatim>\<open>publish(False, all)\<close> in each library; \<^verbatim>\<open>lib.check_repo()\<close> is called
  without \<^verbatim>\<open>show_warning\<close>, so a library that is not a valid repository ends the run through
  \<^verbatim>\<open>error(err, 1)\<close>.
\<close>

fun publish :: "bool \<Rightarrow> string \<Rightarrow> flag \<Rightarrow> flag \<Rightarrow> node \<Rightarrow> event list \<times> (error + unit)"
  and publish_libs :: "bool \<Rightarrow> string \<Rightarrow> flag \<Rightarrow> (string option \<times> node) list \<Rightarrow> event list \<times> (error + unit)"
where
  "publish verbose cwd_root all top_flag (Node loaded libs sh synced) =
     (case publish_enter top_flag loaded of
        (ev0, Inl e) \<Rightarrow> (ev0, Inl e)
      | (ev0, Inr r) \<Rightarrow>
         (case publish_libs verbose cwd_root all libs of
            (ev1, Inl e) \<Rightarrow> (ev0 @ ev1, Inl e)
          | (ev1, Inr _) \<Rightarrow>
             (case publish_finish verbose cwd_root all r sh synced of
                (ev2, res) \<Rightarrow> (ev0 @ ev1 @ ev2, res))))"
| "publish_libs verbose cwd_root all [] = ([], Inr ())"
| "publish_libs verbose cwd_root all ((check, child) # rest) =
     (case check of
        Some err \<Rightarrow> ([], Inl (SystemExit err 1))
      | None \<Rightarrow>
         (case publish verbose cwd_root (Some False) all child of
            (ev, Inl e) \<Rightarrow> (Progress # ev, Inl e)
          | (ev, Inr _) \<Rightarrow>
             (case publish_libs verbose cwd_root all rest of
                (ev', res) \<Rightarrow> (Progress # ev @ ev', res))))"

section \<open>update: removing libraries that lost their reference\<close>

text \<open>
  The part of the file system the pass reads and changes: which paths are regular files
  and which are directories. \<^verbatim>\<open>rmtree_readonly(d)\<close> removes the directory \<open>d\<close> and
  everything below it.
\<close>

record fs =
  isfile :: "string \<Rightarrow> bool"
  isdir :: "string \<Rightarrow> bool"

definition below :: "string \<Rightarrow> string \<Rightarrow> bool" where
  "below d p = (take (length d + 1) p = d @ ''/'' )"

definition rmtree :: "string \<Rightarrow> fs \<Rightarrow> fs" where
  "rmtree d f =
     f\<lparr>isfile := (\<lambda>p. isfile f p \<and> \<not> below d p),
       isdir := (\<lambda>p. isdir f p \<and> p \<noteq> d \<and> \<not> below d p)\<rparr>"

text \<open>The property \<^verbatim>\<open>Repo.lib\<close>: the path of the reference file.\<close>

definition lib :: "repo \<Rightarrow> string" where
  "lib self = path self @ ''.lib''"

text \<open>
  The first loop of \<^verbatim>\<open>update\<close>, over the libraries \<^verbatim>\<open>repo.libs\<close> known before the
  checkout. \<open>synced\<close> gives the object \<^verbatim>\<open>Repo.fromrepo(lib.path)\<close> builds from a
  directory, \<open>sh_at\<close> the outcome of backend commands run in a directory, and \<open>unignore\<close>
  the outcome of \<^verbatim>\<open>repo.scm.unignore(repo, relpath(repo.path, lib.path))\<close>, which edits
  the backend's exclude file. The result is the file system afterwards, the libraries
  removed, the warnings printed, and the error that ended the loop if one did.
\<close>

fun remove_obsolete ::
  "(string \<Rightarrow> repo) \<Rightarrow> (string \<Rightarrow> shell) \<Rightarrow> (string \<Rightarrow> error + unit) \<Rightarrow> repo \<Rightarrow>
     bool \<Rightarrow> bool \<Rightarrow> bool \<Rightarrow> repo list \<Rightarrow> fs \<Rightarrow> fs \<times> repo list \<times> string list \<times> (error + unit)" where
  "remove_obsolete synced sh_at unignore r clean force ignore [] f = (f, [], [], Inr ())"
| "remove_obsolete synced sh_at unignore r clean force ignore (l # ls) f =
     (if \<not> isfile f (lib l) \<and> isdir f (path l) then
        (case fromrepo (Some (path l)) synced (path l) of
           Inl e \<Rightarrow> (f, [], [], Inl e)
         | Inr lib_repo \<Rightarrow>
            (case can_update lib_repo (sh_at (path l)) clean force of
               Inl e \<Rightarrow> (f, [], [], Inl e)
             | Inr (gc, msg) \<Rightarrow>
                 if gc then
                   (case unignore (relpath (path r) (path l)) of
                      Inl e \<Rightarrow> (rmtree (path l) f, [l], [], Inl e)
                    | Inr _ \<Rightarrow>
                       (case remove_obsolete synced sh_at unignore r clean force ignore ls
                               (rmtree (path l) f) of
                          (f', removed, warnings, res) \<Rightarrow> (f', l # removed, warnings, res)))
                 else if ignore then
                   (case remove_obsolete synced sh_at unignore r clean force ignore ls f of
                      (f', removed, warnings, res) \<Rightarrow> (f', removed, msg # warnings, res))
                 else (f, [], [], Inl (SystemExit msg 1))))
      else remove_obsolete synced sh_at unignore r clean force ignore ls f)"

section \<open>Notions used in the statements\<close>

text \<open>An event that is not a push of every branch (\<^verbatim>\<open>git push --all\<close>, \<^verbatim>\<open>hg push --new-branch\<close>).\<close>

definition no_push_all :: "event \<Rightarrow> bool" where
  "no_push_all ev =
     (case ev of Popen p cmd \<Rightarrow> ''--all'' \<notin> set cmd \<and> ''--new-branch'' \<notin> set cmd | _ \<Rightarrow> True)"

text \<open>The message a call of \<^verbatim>\<open>publish\<close> with a true \<^verbatim>\<open>top\<close> starts with.\<close>

definition checking_action :: event where
  "checking_action = Action ''Checking for local modifications...''"

text \<open>What committing and what pushing a repository shows: message, prompt and command.\<close>

definition commit_events :: "bool \<Rightarrow> string \<Rightarrow> repo \<Rightarrow> event list" where
  "commit_events verbose cwd_root r =
     (case scm r of
        None \<Rightarrow> []
      | Some s \<Rightarrow>
          [Action (uncommitted_in cwd_root r), RawInput ''Press enter to commit and push: '',
           Popen (path r) (commit_command s verbose)])"

definition push_events :: "bool \<Rightarrow> flag \<Rightarrow> repo \<Rightarrow> event list" where
  "push_events verbose all r =
     (case scm r of
        None \<Rightarrow> []
      | Some s \<Rightarrow> [Action (pushing r), Popen (path r) (push_command s all verbose)])"

text \<open>
  A sequence of removals, each of a library whose reference file is absent and whose
  directory is present in the file system the removals before it have left.
\<close>

fun justified :: "fs \<Rightarrow> repo list \<Rightarrow> bool" where
  "justified f [] = True"
| "justified f (l # ls) =
     (\<not> isfile f (lib l) \<and> isdir f (path l) \<and> justified (rmtree (path l) f) ls)"

section \<open>Example data\<close>

text \<open>A published git library with a pinned revision, used to instantiate the theorems.\<close>

definition lib1 :: repo where
  "lib1 = \<lparr>name = ''libfoo'', path = ''/p/libfoo'', url = Some ''https://example.com/org/libfoo'',
     hash = Some ''abc123'', is_local = False, scm = Some Git\<rparr>"

text \<open>
  A program with the library above, a second library, two environments (one where every
  command succeeds with no output, one with uncommitted and outgoing changes), the tree
  of the program and its library, and a file system where the reference file of the first
  library is gone.
\<close>

definition prog1 :: repo where
  "prog1 = \<lparr>name = ''p'', path = ''/p'', url = Some ''https://example.com/org/p'',
     hash = Some ''0123456789ab'', is_local = False, scm = Some Git\<rparr>"

definition libbar :: repo where
  "libbar = \<lparr>name = ''libbar'', path = ''/p/libbar'', url = Some ''https://example.com/org/libbar'',
     hash = Some ''def456'', is_local = False, scm = Some Git\<rparr>"

definition quiet :: shell where
  "quiet = (\<lambda>command. Exited 0 [])"

definition busy :: shell where
  "busy = (\<lambda>command.
     if command = [git_cmd, ''diff'', ''--name-only'', ''HEAD''] then Exited 0 ''main.cpp''
     else if command = [git_cmd, ''log'', ''origin..''] then Exited 0 ''commit 1''
     else Exited 0 [])"

definition tree1 :: node where
  "tree1 = Node (Inr prog1) [(None, Node (Inr lib1) [] busy (Inr ()))] quiet (Inr ())"

definition fs1 :: fs where
  "fs1 = \<lparr>isfile = (\<lambda>p. p = ''/p/libbar.lib''),
          isdir = (\<lambda>p. p = ''/p'' \<or> p = ''/p/libfoo'' \<or> p = ''/p/libbar'')\<rparr>"

text \<open>A repository cloned from a URL whose last segment has two dots.\<close>

definition dotted :: repo where
  "dotted = \<lparr>name = ''a.b.c'', path = ''/w/a.b.c'', url = Some ''https://github.com/foo/a.b.c'',
     hash = None, is_local = False, scm = Some Git\<rparr>"

section \<open>Properties\<close>

subsection \<open>Outgoing commits\<close>

text \<open>
  Claim C7. When the outgoing-commits query exits with status 1, \<^verbatim>\<open>Hg.outgoing\<close> returns
  false and \<^verbatim>\<open>Git.outgoing\<close> returns true; for every other nonzero exit status both
  backends re-raise the \<^verbatim>\<open>ProcessException\<close> carrying that status instead of returning
  a boolean.
\<close>

theorem outgoing_exit_status:
  "(sh [hg_cmd, ''outgoing''] = Exited 1 out \<longrightarrow> Hg_outgoing sh = Inr False) \<and>
   (sh [git_cmd, ''log'', ''origin..''] = Exited 1 out \<longrightarrow> Git_outgoing sh = Inr True) \<and>
   (rc \<noteq> 0 \<and> rc \<noteq> 1 \<longrightarrow>
      (sh [hg_cmd, ''outgoing''] = Exited rc out \<longrightarrow> Hg_outgoing sh = Inl (ProcessException rc)) \<and>
      (sh [git_cmd, ''log'', ''origin..''] = Exited rc out \<longrightarrow> Git_outgoing sh = Inl (ProcessException rc)))"
  by (simp add: Hg_outgoing_def Git_outgoing_def pquery_def)

theorem outgoing_exit_status_witness:
  "(\<lambda>c. Exited 1 []) [hg_cmd, ''outgoing''] = Exited 1 [] \<and>
   Hg_outgoing (\<lambda>c. Exited 1 []) = Inr False \<and>
   Git_outgoing (\<lambda>c. Exited 1 []) = Inr True \<and>
   Hg_outgoing (\<lambda>c. Exited 255 []) = Inl (ProcessException 255) \<and>
   Git_outgoing (\<lambda>c. Exited 128 []) = Inl (ProcessException 128)"
  using outgoing_exit_status [of "\<lambda>c. Exited 1 []" "[]" 1]
    outgoing_exit_status [of "\<lambda>c. Exited 255 []" "[]" 255]
    outgoing_exit_status [of "\<lambda>c. Exited 128 []" "[]" 128]
  by simp

subsection \<open>The safety gate\<close>

lemma gate_messages_distinct:
  "distinct [preserving_local r, uncommitted_changes r, unpublished_changes r, ''OK'']"
  by (simp add: preserving_local_def uncommitted_changes_def unpublished_changes_def)

text \<open>
  Claim C1. \<^verbatim>\<open>can_update\<close> allows exactly when (a) the repository has a remote URL and is
  not local-only, or \<open>force\<close>; (b) the working tree is not dirty, or \<open>clean\<close>; (c) there are
  no outgoing commits, or \<open>force\<close>. It refuses exactly when one of them is unmet, with the
  message of the first unmet condition, and the three messages and the allow text are
  pairwise different.
\<close>

theorem can_update_gate:
  "(can_update self sh clean force = Inr (True, ''OK'') \<longleftrightarrow>
      ((\<not> is_local self \<and> url self \<noteq> None) \<or> force) \<and>
      (clean \<or> repo_dirty self sh = Inr []) \<and>
      (force \<or> repo_outgoing self sh = Inr False)) \<and>
   (can_update self sh clean force = Inr (False, msg) \<longleftrightarrow>
      (\<not> ((\<not> is_local self \<and> url self \<noteq> None) \<or> force) \<and> msg = preserving_local self) \<or>
      (((\<not> is_local self \<and> url self \<noteq> None) \<or> force) \<and>
         \<not> clean \<and> (\<exists>d. repo_dirty self sh = Inr d \<and> d \<noteq> []) \<and>
         msg = uncommitted_changes self) \<or>
      (((\<not> is_local self \<and> url self \<noteq> None) \<or> force) \<and>
         (clean \<or> repo_dirty self sh = Inr []) \<and>
         \<not> force \<and> repo_outgoing self sh = Inr True \<and>
         msg = unpublished_changes self)) \<and>
   (can_update self sh clean force = Inr (True, msg) \<longrightarrow> msg = ''OK'') \<and>
   distinct [preserving_local self, uncommitted_changes self, unpublished_changes self, ''OK'']"
proof -
  have allow: "can_update self sh clean force = Inr (True, ''OK'') \<longleftrightarrow>
      ((\<not> is_local self \<and> url self \<noteq> None) \<or> force) \<and>
      (clean \<or> repo_dirty self sh = Inr []) \<and>
      (force \<or> repo_outgoing self sh = Inr False)"
    by (auto simp: can_update_def split: sum.splits)
  have refuse: "can_update self sh clean force = Inr (False, msg) \<longleftrightarrow>
      (\<not> ((\<not> is_local self \<and> url self \<noteq> None) \<or> force) \<and> msg = preserving_local self) \<or>
      (((\<not> is_local self \<and> url self \<noteq> None) \<or> force) \<and>
         \<not> clean \<and> (\<exists>d. repo_dirty self sh = Inr d \<and> d \<noteq> []) \<and>
         msg = uncommitted_changes self) \<or>
      (((\<not> is_local self \<and> url self \<noteq> None) \<or> force) \<and>
         (clean \<or> repo_dirty self sh = Inr []) \<and>
         \<not> force \<and> repo_outgoing self sh = Inr True \<and>
         msg = unpublished_changes self)"
    by (auto simp: can_update_def split: sum.splits)
  have ok: "can_update self sh clean force = Inr (True, msg) \<longrightarrow> msg = ''OK''"
    by (auto simp: can_update_def split: sum.splits if_splits)
  from allow refuse ok gate_messages_distinct show ?thesis by blast
qed

theorem can_update_gate_witness:
  "can_update lib1 (\<lambda>c. Exited 0 []) False False = Inr (True, ''OK'') \<and>
   can_update lib1 (\<lambda>c. Exited 0 ''M main.cpp'') False True = Inr (False, uncommitted_changes lib1) \<and>
   can_update (lib1\<lparr>is_local := True\<rparr>) (\<lambda>c. Exited 0 []) True False =
     Inr (False, preserving_local (lib1\<lparr>is_local := True\<rparr>))"
proof -
  have a: "can_update lib1 (\<lambda>c. Exited 0 []) False False = Inr (True, ''OK'')"
    using can_update_gate [of lib1 "\<lambda>c. Exited 0 []" False False "[]"]
    by (simp add: lib1_def repo_dirty_def repo_outgoing_def scm_dirty_def scm_outgoing_def
        Git_dirty_def Git_outgoing_def pquery_def)
  have b: "can_update lib1 (\<lambda>c. Exited 0 ''M main.cpp'') False True = Inr (False, uncommitted_changes lib1)"
    using can_update_gate [of lib1 "\<lambda>c. Exited 0 ''M main.cpp''" False True "uncommitted_changes lib1"]
    by (simp add: lib1_def repo_dirty_def scm_dirty_def Git_dirty_def pquery_def)
  have c: "can_update (lib1\<lparr>is_local := True\<rparr>) (\<lambda>c. Exited 0 []) True False =
     Inr (False, preserving_local (lib1\<lparr>is_local := True\<rparr>))"
    using can_update_gate [of "lib1\<lparr>is_local := True\<rparr>" "\<lambda>c. Exited 0 []" True False
        "preserving_local (lib1\<lparr>is_local := True\<rparr>)"]
    by simp
  from a b c show ?thesis by simp
qed

subsection \<open>The detached-head check of update\<close>

lemma detached_head_not_exec:
  "detached_head t n \<noteq> could_not_execute c" "could_not_execute c \<noteq> detached_head t n"
  by (simp_all add: detached_head_def could_not_execute_def)

lemma repo_isdetached_not_detached_head:
  "repo_isdetached r sh \<noteq> Inl (SystemExit (detached_head t n) k)"
  by (auto simp: repo_isdetached_def scm_isdetached_def Hg_isdetached_def Git_isdetached_def
      pquery_def detached_head_not_exec split: option.splits scm.splits proc.splits sum.splits)

text \<open>
  Claim C9. Once the preliminary \<^verbatim>\<open>sync()\<close> and \<^verbatim>\<open>Repo.fromrepo()\<close> have succeeded,
  \<^verbatim>\<open>update\<close> raises the detached-head error exactly when the call is top-level, \<^verbatim>\<open>rev\<close>
  is not given (\<^verbatim>\<open>not rev\<close>) and the backend's \<^verbatim>\<open>isdetached\<close> returns true. The hg
  backend's \<^verbatim>\<open>isdetached\<close> returns false on every call, so an hg repository passes the
  check.
\<close>

theorem update_detached_head:
  "(toplevel \<and> clean \<longrightarrow> sync_cmd = Inr ()) \<Longrightarrow> fromrepo found synced cwd = Inr r \<Longrightarrow>
   ((\<exists>n. update_begin sync_cmd found synced cwd cwd_type sh revision clean toplevel =
           Inl (SystemExit (detached_head cwd_type n) 1)) \<longleftrightarrow>
      toplevel \<and> py_not revision \<and> repo_isdetached r sh = Inr True) \<and>
   (toplevel \<and> py_not revision \<and> repo_isdetached r sh = Inr True \<longrightarrow>
      (\<exists>s. scm r = Some s \<and>
        update_begin sync_cmd found synced cwd cwd_type sh revision clean toplevel =
          Inl (SystemExit (detached_head cwd_type (scm_name s)) 1))) \<and>
   Hg_isdetached sh = Inr False \<and>
   (scm r = Some Hg \<longrightarrow>
      update_begin sync_cmd found synced cwd cwd_type sh revision clean toplevel = Inr r)"
proof -
  assume s: "toplevel \<and> clean \<longrightarrow> sync_cmd = Inr ()" and f: "fromrepo found synced cwd = Inr r"
  have pre: "(if toplevel \<and> clean then sync_cmd else Inr ()) = Inr ()"
    using s by simp
  have scm_some: "scm r \<noteq> None"
    using f by (auto simp: fromrepo_def Let_def split: option.splits if_splits)
  then obtain s0 where s0: "scm r = Some s0" by blast
  have ub: "update_begin sync_cmd found synced cwd cwd_type sh revision clean toplevel =
      (case (if toplevel \<and> py_not revision then repo_isdetached r sh else Inr False) of
         Inl e \<Rightarrow> Inl e
       | Inr d \<Rightarrow> if d then Inl (SystemExit (detached_head cwd_type (scm_name s0)) 1) else Inr r)"
    by (simp add: update_begin_def pre f s0 split: sum.splits)
  have 1: "(\<exists>n. update_begin sync_cmd found synced cwd cwd_type sh revision clean toplevel =
           Inl (SystemExit (detached_head cwd_type n) 1)) \<longleftrightarrow>
      toplevel \<and> py_not revision \<and> repo_isdetached r sh = Inr True"
    using repo_isdetached_not_detached_head [of r sh cwd_type]
    by (auto simp: ub split: sum.splits if_splits)
  have 2: "toplevel \<and> py_not revision \<and> repo_isdetached r sh = Inr True \<longrightarrow>
      (\<exists>s. scm r = Some s \<and>
        update_begin sync_cmd found synced cwd cwd_type sh revision clean toplevel =
          Inl (SystemExit (detached_head cwd_type (scm_name s)) 1))"
    unfolding ub by (simp add: s0)
  have 3: "Hg_isdetached sh = Inr False" by (simp add: Hg_isdetached_def)
  have 4: "scm r = Some Hg \<longrightarrow>
      update_begin sync_cmd found synced cwd cwd_type sh revision clean toplevel = Inr r"
    by (auto simp: ub repo_isdetached_def scm_isdetached_def Hg_isdetached_def)
  from 1 2 3 4 show ?thesis by blast
qed

theorem update_detached_head_witness:
  "fromrepo (Some ''/p/libfoo'') (\<lambda>p. lib1) ''/p/libfoo'' = Inr lib1 \<and>
   repo_isdetached lib1 (\<lambda>c. Exited 0 ''HEAD\<newline>'') = Inr True \<and>
   update_begin (Inr ()) (Some ''/p/libfoo'') (\<lambda>p. lib1) ''/p/libfoo'' ''program''
      (\<lambda>c. Exited 0 ''HEAD\<newline>'') None False True =
     Inl (SystemExit (detached_head ''program'' ''git'') 1) \<and>
   update_begin (Inr ()) (Some ''/p/libfoo'') (\<lambda>p. lib1\<lparr>scm := Some Hg\<rparr>) ''/p/libfoo'' ''program''
      (\<lambda>c. Exited 0 ''HEAD\<newline>'') None False True = Inr (lib1\<lparr>scm := Some Hg\<rparr>)"
proof -
  have f: "fromrepo (Some ''/p/libfoo'') (\<lambda>p. lib1) ''/p/libfoo'' = Inr lib1"
    by (simp add: fromrepo_def lib1_def)
  have d: "repo_isdetached lib1 (\<lambda>c. Exited 0 ''HEAD\<newline>'') = Inr True"
    by (simp add: repo_isdetached_def lib1_def scm_isdetached_def Git_isdetached_def pquery_def
        strip_def lstrip_def rstrip_def py_space_def)
  have g: "fromrepo (Some ''/p/libfoo'') (\<lambda>p. lib1\<lparr>scm := Some Hg\<rparr>) ''/p/libfoo'' = Inr (lib1\<lparr>scm := Some Hg\<rparr>)"
    by (simp add: fromrepo_def lib1_def)
  have a: "update_begin (Inr ()) (Some ''/p/libfoo'') (\<lambda>p. lib1) ''/p/libfoo'' ''program''
      (\<lambda>c. Exited 0 ''HEAD\<newline>'') None False True =
     Inl (SystemExit (detached_head ''program'' ''git'') 1)"
    using update_detached_head [OF _ f, of True False "Inr ()" "''program''" "(\<lambda>c. Exited 0 ''HEAD\<newline>'')" None] d
    by (simp add: py_not_def lib1_def scm_name_def)
  have b: "update_begin (Inr ()) (Some ''/p/libfoo'') (\<lambda>p. lib1\<lparr>scm := Some Hg\<rparr>) ''/p/libfoo'' ''program''
      (\<lambda>c. Exited 0 ''HEAD\<newline>'') None False True = Inr (lib1\<lparr>scm := Some Hg\<rparr>)"
    using update_detached_head [OF _ g, of True False "Inr ()" "''program''" "(\<lambda>c. Exited 0 ''HEAD\<newline>'')" None]
    by simp
  from f d a b show ?thesis by simp
qed

subsection \<open>publish\<close>

lemma publish_events:
  "fst (publish v c a tf (Node loaded libs sh sy)) =
     fst (publish_enter tf loaded) @
     (case snd (publish_enter tf loaded) of
        Inl e \<Rightarrow> []
      | Inr r \<Rightarrow>
          fst (publish_libs v c a libs) @
          (case snd (publish_libs v c a libs) of
             Inl e \<Rightarrow> []
           | Inr u \<Rightarrow> fst (publish_finish v c a r sh sy)))"
  by (simp split: prod.splits sum.splits)

lemma publish_result:
  "snd (publish v c a tf (Node loaded libs sh sy)) =
     (case snd (publish_enter tf loaded) of
        Inl e \<Rightarrow> Inl e
      | Inr r \<Rightarrow>
          (case snd (publish_libs v c a libs) of
             Inl e \<Rightarrow> Inl e
           | Inr u \<Rightarrow> snd (publish_finish v c a r sh sy)))"
  by (simp split: prod.splits sum.splits)

lemma publish_libs_events:
  "fst (publish_libs v c a ((None, child) # rest)) =
     Progress # fst (publish v c (Some False) a child) @
     (case snd (publish v c (Some False) a child) of
        Inl e \<Rightarrow> []
      | Inr u \<Rightarrow> fst (publish_libs v c a rest))"
  by (simp split: prod.splits sum.splits)

lemma publish_libs_result:
  "snd (publish_libs v c a ((None, child) # rest)) =
     (case snd (publish v c (Some False) a child) of
        Inl e \<Rightarrow> Inl e
      | Inr u \<Rightarrow> snd (publish_libs v c a rest))"
  by (simp split: prod.splits sum.splits)

lemma publish_libs_invalid:
  "publish_libs v c a ((Some err, child) # rest) = ([], Inl (SystemExit err 1))"
  by simp

lemma publish_libs_ok:
  "snd (publish_libs v c a libs) = Inr u \<Longrightarrow>
   fst (publish_libs v c a libs) =
     concat (map (\<lambda>(check, child). Progress # fst (publish v c (Some False) a child)) libs) \<and>
   (\<forall>(check, child) \<in> set libs. check = None \<and> snd (publish v c (Some False) a child) = Inr ())"
proof (induction libs)
  case Nil
  then show ?case by simp
next
  case (Cons x libs)
  obtain check child where x: "x = (check, child)" by (cases x)
  show ?case
  proof (cases check)
    case (Some err)
    with Cons.prems x show ?thesis by simp
  next
    case None
    from Cons.prems have r: "snd (publish_libs v c a ((None, child) # libs)) = Inr u"
      by (simp only: x None)
    from r have ok: "snd (publish v c (Some False) a child) = Inr ()"
      unfolding publish_libs_result by (simp split: sum.splits)
    from r ok have rest: "snd (publish_libs v c a libs) = Inr u"
      unfolding publish_libs_result by simp
    have ev: "fst (publish_libs v c a (x # libs)) =
        Progress # fst (publish v c (Some False) a child) @ fst (publish_libs v c a libs)"
      unfolding x None publish_libs_events by (simp add: ok)
    from Cons.IH [OF rest] ev ok show ?thesis
      by (simp add: x None)
  qed
qed

lemma publish_enter_no_push_all: "ev \<in> set (fst (publish_enter tf loaded)) \<Longrightarrow> no_push_all ev"
  by (simp add: publish_enter_def no_push_all_def split: if_splits)

lemma commit_command_no_all:
  "''--all'' \<notin> set (commit_command s v)" "''--new-branch'' \<notin> set (commit_command s v)"
  by (cases s; cases v; simp add: commit_command_def verbosity_def hg_cmd_def git_cmd_def)+

lemma push_command_no_all:
  "\<not> truthy a \<Longrightarrow> ''--all'' \<notin> set (push_command s a v)"
  "\<not> truthy a \<Longrightarrow> ''--new-branch'' \<notin> set (push_command s a v)"
  by (cases s; cases v; simp add: push_command_def verbosity_def hg_cmd_def git_cmd_def)+

lemma publish_commit_events:
  "fst (publish_commit v c r sh) = [] \<or>
   (\<exists>s. scm r = Some s \<and> fst (publish_commit v c r sh) =
      [Action (uncommitted_in c r), RawInput ''Press enter to commit and push: '',
       Popen (path r) (commit_command s v)])"
  by (simp add: publish_commit_def split: sum.splits option.splits)

lemma publish_push_events:
  "fst (publish_push v a r sh) = [] \<or>
   (\<exists>s. scm r = Some s \<and> fst (publish_push v a r sh) =
      [Action (pushing r), Popen (path r) (push_command s a v)])"
  by (simp add: publish_push_def split: sum.splits option.splits)

lemma publish_finish_events:
  "set (fst (publish_finish v c a r sh sy)) \<subseteq>
     {SyncCmd (path r)} \<union> set (fst (publish_commit v c r sh)) \<union> set (fst (publish_push v a r sh))"
  by (auto simp: publish_finish_def split: sum.splits prod.splits)

lemma publish_finish_no_push_all:
  assumes "\<not> truthy a" and "ev \<in> set (fst (publish_finish v c a r sh sy))"
  shows "no_push_all ev"
proof -
  from assms(2) publish_finish_events [of v c a r sh sy]
  consider "ev = SyncCmd (path r)" | "ev \<in> set (fst (publish_commit v c r sh))"
    | "ev \<in> set (fst (publish_push v a r sh))"
    by blast
  then show ?thesis
  proof cases
    case 1
    then show ?thesis by (simp add: no_push_all_def)
  next
    case 2
    with publish_commit_events [of v c r sh] show ?thesis
      by (auto simp: no_push_all_def commit_command_no_all)
  next
    case 3
    with publish_push_events [of v a r sh] assms(1) show ?thesis
      by (auto simp: no_push_all_def push_command_no_all)
  qed
qed

lemma no_push_all_below:
  "\<not> truthy a \<longrightarrow> (\<forall>ev \<in> set (fst (publish v c a tf n)). no_push_all ev)"
  "\<forall>ev \<in> set (fst (publish_libs v c a libs)). no_push_all ev"
proof (induction v c a tf n and v c a libs rule: publish_publish_libs.induct)
  case (1 verbose cwd_root all top_flag loaded libs sh synced)
  show ?case
  proof (intro impI ballI)
    fix ev
    assume na: "\<not> truthy all"
      and ev: "ev \<in> set (fst (publish verbose cwd_root all top_flag (Node loaded libs sh synced)))"
    show "no_push_all ev"
    proof (cases "snd (publish_enter top_flag loaded)")
      case (Inl e)
      with ev have "ev \<in> set (fst (publish_enter top_flag loaded))"
        unfolding publish_events by simp
      then show ?thesis by (rule publish_enter_no_push_all)
    next
      case (Inr r)
      have ih: "\<forall>ev \<in> set (fst (publish_libs verbose cwd_root all libs)). no_push_all ev"
        using "1.IH" [of "fst (publish_enter top_flag loaded)" "snd (publish_enter top_flag loaded)" r] Inr
        by (simp add: prod_eq_iff)
      from ev Inr consider "ev \<in> set (fst (publish_enter top_flag loaded))"
        | "ev \<in> set (fst (publish_libs verbose cwd_root all libs))"
        | "ev \<in> set (fst (publish_finish verbose cwd_root all r sh synced))"
        unfolding publish_events by (auto split: sum.splits)
      then show ?thesis
      proof cases
        case 1
        then show ?thesis by (rule publish_enter_no_push_all)
      next
        case 2
        with ih show ?thesis by blast
      next
        case 3
        with na show ?thesis by (rule publish_finish_no_push_all)
      qed
    qed
  qed
next
  case (2 verbose cwd_root all)
  show ?case by simp
next
  case (3 verbose cwd_root all check child rest)
  show ?case
  proof (cases check)
    case (Some err)
    then show ?thesis by simp
  next
    case None
    have f: "\<not> truthy (Some False)" by (simp add: truthy_def)
    from "3.IH"(1) [OF None] f
    have c: "\<forall>ev \<in> set (fst (publish verbose cwd_root (Some False) all child)). no_push_all ev"
      by blast
    show ?thesis
    proof (cases "snd (publish verbose cwd_root (Some False) all child)")
      case (Inl e)
      with c show ?thesis
        unfolding None publish_libs_events by (simp add: no_push_all_def)
    next
      case (Inr u)
      have r: "\<forall>ev \<in> set (fst (publish_libs verbose cwd_root all rest)). no_push_all ev"
        using "3.IH"(2) [OF None, of "fst (publish verbose cwd_root (Some False) all child)"
            "snd (publish verbose cwd_root (Some False) all child)" u] Inr
        by (simp add: prod_eq_iff)
      with c Inr show ?thesis
        unfolding None publish_libs_events by (auto simp: no_push_all_def)
    qed
  qed
qed

lemma checking_not_in_finish: "checking_action \<notin> set (fst (publish_finish v c a r sh sy))"
proof
  assume "checking_action \<in> set (fst (publish_finish v c a r sh sy))"
  with publish_finish_events [of v c a r sh sy]
  consider "checking_action = SyncCmd (path r)"
    | "checking_action \<in> set (fst (publish_commit v c r sh))"
    | "checking_action \<in> set (fst (publish_push v a r sh))"
    by blast
  then show False
  proof cases
    case 1
    then show ?thesis by (simp add: checking_action_def)
  next
    case 2
    with publish_commit_events [of v c r sh] show ?thesis
      by (auto simp: checking_action_def uncommitted_in_def)
  next
    case 3
    with publish_push_events [of v a r sh] show ?thesis
      by (auto simp: checking_action_def pushing_def)
  qed
qed

lemma publish_enter_events:
  "fst (publish_enter tf loaded) = (if truthy tf then [checking_action] else [])"
  by (simp add: publish_enter_def checking_action_def)

lemma checking_below:
  "\<not> truthy tf \<and> \<not> truthy a \<longrightarrow> checking_action \<notin> set (fst (publish v c a tf n))"
  "\<not> truthy a \<longrightarrow> checking_action \<notin> set (fst (publish_libs v c a libs))"
proof (induction v c a tf n and v c a libs rule: publish_publish_libs.induct)
  case (1 verbose cwd_root all top_flag loaded libs sh synced)
  show ?case
  proof (intro impI notI)
    assume h: "\<not> truthy top_flag \<and> \<not> truthy all"
      and ev: "checking_action \<in> set (fst (publish verbose cwd_root all top_flag (Node loaded libs sh synced)))"
    from h have e: "fst (publish_enter top_flag loaded) = []"
      by (simp add: publish_enter_events)
    show False
    proof (cases "snd (publish_enter top_flag loaded)")
      case (Inl err)
      with ev e show ?thesis unfolding publish_events by simp
    next
      case (Inr r)
      have ih: "checking_action \<notin> set (fst (publish_libs verbose cwd_root all libs))"
        using "1.IH" [of "fst (publish_enter top_flag loaded)" "snd (publish_enter top_flag loaded)" r] Inr h
        by (simp add: prod_eq_iff)
      from ev Inr e consider "checking_action \<in> set (fst (publish_libs verbose cwd_root all libs))"
        | "checking_action \<in> set (fst (publish_finish verbose cwd_root all r sh synced))"
        unfolding publish_events by (auto split: sum.splits)
      then show ?thesis
      proof cases
        case 1
        with ih show ?thesis by blast
      next
        case 2
        with checking_not_in_finish show ?thesis by blast
      qed
    qed
  qed
next
  case (2 verbose cwd_root all)
  show ?case by simp
next
  case (3 verbose cwd_root all check child rest)
  show ?case
  proof (cases check)
    case (Some err)
    then show ?thesis by simp
  next
    case None
    have f: "\<not> truthy (Some False)" by (simp add: truthy_def)
    show ?thesis
    proof
      assume na: "\<not> truthy all"
      from "3.IH"(1) [OF None] f na
      have c: "checking_action \<notin> set (fst (publish verbose cwd_root (Some False) all child))"
        by blast
      show "checking_action \<notin> set (fst (publish_libs verbose cwd_root all ((check, child) # rest)))"
      proof (cases "snd (publish verbose cwd_root (Some False) all child)")
        case (Inl e)
        with c show ?thesis
          unfolding None publish_libs_events by (simp add: checking_action_def)
      next
        case (Inr u)
        have r: "checking_action \<notin> set (fst (publish_libs verbose cwd_root all rest))"
          using "3.IH"(2) [OF None, of "fst (publish verbose cwd_root (Some False) all child)"
              "snd (publish verbose cwd_root (Some False) all child)" u] Inr na
          by (simp add: prod_eq_iff)
        with c Inr show ?thesis
          unfolding None publish_libs_events by (simp add: checking_action_def)
      qed
    qed
  qed
qed

lemma publish_finish_ok:
  "snd (publish_finish v c a r sh sy) = Inr u \<Longrightarrow>
   fst (publish_finish v c a r sh sy) =
     SyncCmd (path r) #
     (if (\<exists>d. repo_dirty r sh = Inr d \<and> d \<noteq> []) then commit_events v c r else []) @
     (if repo_outgoing r sh = Inr True then push_events v a r else [])"
  by (auto simp: publish_finish_def publish_commit_def publish_push_def commit_events_def
      push_events_def swallow_exit_1_def
      split: sum.splits prod.splits option.splits if_splits error.splits)

lemma publish_finish_only_when:
  "Popen p cmd \<in> set (fst (publish_finish v c a r sh sy)) \<Longrightarrow>
   p = path r \<and>
   (\<exists>s. scm r = Some s \<and>
     ((cmd = commit_command s v \<and> (\<exists>d. repo_dirty r sh = Inr d \<and> d \<noteq> [])) \<or>
      (cmd = push_command s a v \<and> repo_outgoing r sh = Inr True)))"
  by (auto simp: publish_finish_def publish_commit_def publish_push_def
      split: sum.splits prod.splits option.splits if_splits)

text \<open>
  Claim C8. \<^verbatim>\<open>publish\<close> on a local-only repository ends with an error before any
  library is visited and before any sync, commit or push. Otherwise its events are those of
  the libraries, each published in turn by a recursive call, followed (when every library
  succeeded) by the events of the node itself: the sync, then a commit exactly when the
  working tree is dirty, then a push exactly when there are outgoing commits.
\<close>

theorem publish_children_first:
  "(is_local r \<longrightarrow>
      (\<exists>e. snd (publish v c a tf (Node (Inr r) libs sh sy)) = Inl e) \<and>
      fst (publish v c a tf (Node (Inr r) libs sh sy)) = (if truthy tf then [checking_action] else [])) \<and>
   (is_local r \<and> scm r = Some s \<longrightarrow>
      snd (publish v c a tf (Node (Inr r) libs sh sy)) =
        Inl (SystemExit (local_repository tf r (scm_name s)) 1)) \<and>
   (\<not> is_local r \<longrightarrow>
      fst (publish v c a tf (Node (Inr r) libs sh sy)) =
        (if truthy tf then [checking_action] else []) @
        fst (publish_libs v c a libs) @
        (case snd (publish_libs v c a libs) of
           Inl e \<Rightarrow> []
         | Inr u \<Rightarrow> fst (publish_finish v c a r sh sy))) \<and>
   (snd (publish_libs v c a libs) = Inr () \<longrightarrow>
      fst (publish_libs v c a libs) =
        concat (map (\<lambda>(check, child). Progress # fst (publish v c (Some False) a child)) libs) \<and>
      (\<forall>(check, child) \<in> set libs.
          check = None \<and> snd (publish v c (Some False) a child) = Inr ())) \<and>
   (snd (publish_finish v c a r sh sy) = Inr () \<longrightarrow>
      fst (publish_finish v c a r sh sy) =
        SyncCmd (path r) #
        (if (\<exists>d. repo_dirty r sh = Inr d \<and> d \<noteq> []) then commit_events v c r else []) @
        (if repo_outgoing r sh = Inr True then push_events v a r else [])) \<and>
   (\<forall>p cmd. Popen p cmd \<in> set (fst (publish_finish v c a r sh sy)) \<longrightarrow>
      p = path r \<and>
      (\<exists>s. scm r = Some s \<and>
        ((cmd = commit_command s v \<and> (\<exists>d. repo_dirty r sh = Inr d \<and> d \<noteq> [])) \<or>
         (cmd = push_command s a v \<and> repo_outgoing r sh = Inr True))))"
proof -
  have 1: "is_local r \<longrightarrow>
      (\<exists>e. snd (publish v c a tf (Node (Inr r) libs sh sy)) = Inl e) \<and>
      fst (publish v c a tf (Node (Inr r) libs sh sy)) = (if truthy tf then [checking_action] else [])"
    unfolding publish_events publish_result
    by (simp add: publish_enter_def checking_action_def split: option.splits)
  have 2: "is_local r \<and> scm r = Some s \<longrightarrow>
      snd (publish v c a tf (Node (Inr r) libs sh sy)) =
        Inl (SystemExit (local_repository tf r (scm_name s)) 1)"
    unfolding publish_result by (simp add: publish_enter_def)
  have 3: "\<not> is_local r \<longrightarrow>
      fst (publish v c a tf (Node (Inr r) libs sh sy)) =
        (if truthy tf then [checking_action] else []) @
        fst (publish_libs v c a libs) @
        (case snd (publish_libs v c a libs) of
           Inl e \<Rightarrow> []
         | Inr u \<Rightarrow> fst (publish_finish v c a r sh sy))"
    unfolding publish_events by (simp add: publish_enter_def checking_action_def)
  have 4: "snd (publish_libs v c a libs) = Inr () \<longrightarrow>
      fst (publish_libs v c a libs) =
        concat (map (\<lambda>(check, child). Progress # fst (publish v c (Some False) a child)) libs) \<and>
      (\<forall>(check, child) \<in> set libs.
          check = None \<and> snd (publish v c (Some False) a child) = Inr ())"
    using publish_libs_ok [of v c a libs "()"] by blast
  have 5: "snd (publish_finish v c a r sh sy) = Inr () \<longrightarrow>
      fst (publish_finish v c a r sh sy) =
        SyncCmd (path r) #
        (if (\<exists>d. repo_dirty r sh = Inr d \<and> d \<noteq> []) then commit_events v c r else []) @
        (if repo_outgoing r sh = Inr True then push_events v a r else [])"
    using publish_finish_ok [of v c a r sh sy "()"] by blast
  have 6: "\<forall>p cmd. Popen p cmd \<in> set (fst (publish_finish v c a r sh sy)) \<longrightarrow>
      p = path r \<and>
      (\<exists>s. scm r = Some s \<and>
        ((cmd = commit_command s v \<and> (\<exists>d. repo_dirty r sh = Inr d \<and> d \<noteq> [])) \<or>
         (cmd = push_command s a v \<and> repo_outgoing r sh = Inr True)))"
    using publish_finish_only_when [of _ _ v c a r sh sy] by blast
  from 1 2 3 4 5 6 show ?thesis by (intro conjI)
qed

text \<open>
  Claim C10. The loop over the libraries calls \<^verbatim>\<open>publish(False, all)\<close>: whatever \<^verbatim>\<open>all\<close>
  the parent was given, no push below it is a push of every branch, and the parent's
  \<^verbatim>\<open>all\<close> arrives as the child's \<^verbatim>\<open>top\<close>, so the child starts with the message of a
  top-level call exactly when the parent's \<^verbatim>\<open>all\<close> is true.
\<close>

theorem publish_child_arguments:
  "publish_libs v c a ((None, child) # rest) =
     (case publish v c (Some False) a child of
        (ev, Inl e) \<Rightarrow> (Progress # ev, Inl e)
      | (ev, Inr u) \<Rightarrow>
          (case publish_libs v c a rest of (ev', res) \<Rightarrow> (Progress # ev @ ev', res))) \<and>
   (\<forall>ev \<in> set (fst (publish_libs v c a libs)). no_push_all ev) \<and>
   (truthy a \<longrightarrow> take 2 (fst (publish_libs v c a ((None, child) # rest))) = [Progress, checking_action]) \<and>
   (\<not> truthy a \<longrightarrow> checking_action \<notin> set (fst (publish_libs v c a libs)))"
proof -
  have 1: "publish_libs v c a ((None, child) # rest) =
     (case publish v c (Some False) a child of
        (ev, Inl e) \<Rightarrow> (Progress # ev, Inl e)
      | (ev, Inr u) \<Rightarrow>
          (case publish_libs v c a rest of (ev', res) \<Rightarrow> (Progress # ev @ ev', res)))"
    by simp
  have 2: "\<forall>ev \<in> set (fst (publish_libs v c a libs)). no_push_all ev"
    by (rule no_push_all_below(2))
  have 3: "truthy a \<longrightarrow> take 2 (fst (publish_libs v c a ((None, child) # rest))) = [Progress, checking_action]"
  proof
    assume t: "truthy a"
    obtain loaded ls sh sy where ch: "child = Node loaded ls sh sy" by (cases child)
    have "\<exists>more. fst (publish v c (Some False) a child) = checking_action # more"
      unfolding ch publish_events by (simp add: publish_enter_events t)
    then obtain more where m: "fst (publish v c (Some False) a child) = checking_action # more" ..
    show "take 2 (fst (publish_libs v c a ((None, child) # rest))) = [Progress, checking_action]"
      unfolding publish_libs_events m by (simp add: numeral_2_eq_2)
  qed
  have 4: "\<not> truthy a \<longrightarrow> checking_action \<notin> set (fst (publish_libs v c a libs))"
    by (rule checking_below(2))
  from 1 2 3 4 show ?thesis by (intro conjI)
qed

lemma libs1_run:
  "publish_libs False ''/p'' (Some True) [(None, Node (Inr lib1) [] busy (Inr ()))] =
    ([Progress, checking_action, SyncCmd ''/p/libfoo'',
      Action (uncommitted_in ''/p'' lib1), RawInput ''Press enter to commit and push: '',
      Popen ''/p/libfoo'' [''git'', ''commit'', ''-a'', ''-q''],
      Action (pushing lib1), Popen ''/p/libfoo'' [''git'', ''push'', ''-q'']], Inr ())"
  by (simp add: lib1_def publish_enter_def publish_finish_def publish_commit_def
      publish_push_def truthy_def checking_action_def repo_dirty_def repo_outgoing_def scm_dirty_def
      scm_outgoing_def Git_dirty_def Git_outgoing_def pquery_def popen_def busy_def
      commit_command_def push_command_def verbosity_def git_cmd_def swallow_exit_1_def)

theorem publish_children_first_witness:
  "\<not> is_local prog1 \<and>
   snd (publish_libs False ''/p'' (Some True) [(None, Node (Inr lib1) [] busy (Inr ()))]) = Inr () \<and>
   fst (publish False ''/p'' (Some True) (Some True) tree1) =
     [checking_action] @
     fst (publish_libs False ''/p'' (Some True) [(None, Node (Inr lib1) [] busy (Inr ()))]) @
     fst (publish_finish False ''/p'' (Some True) prog1 quiet (Inr ())) \<and>
   fst (publish_libs False ''/p'' (Some True) [(None, Node (Inr lib1) [] busy (Inr ()))]) =
     Progress # fst (publish False ''/p'' (Some False) (Some True) (Node (Inr lib1) [] busy (Inr ()))) \<and>
   snd (publish False ''/p'' (Some False) (Some True) (Node (Inr lib1) [] busy (Inr ()))) = Inr ()"
proof -
  have nl: "\<not> is_local prog1" by (simp add: prog1_def)
  have ok: "snd (publish_libs False ''/p'' (Some True) [(None, Node (Inr lib1) [] busy (Inr ()))]) = Inr ()"
    by (simp only: libs1_run snd_conv)
  have t: "truthy (Some True)" by (simp add: truthy_def)
  from publish_children_first [where r = prog1 and v = False and c = "''/p''" and a = "Some True"
      and tf = "Some True" and libs = "[(None, Node (Inr lib1) [] busy (Inr ()))]"
      and sh = quiet and sy = "Inr ()" and s = Git] nl ok t
  show ?thesis
    by (simp add: tree1_def)
qed

theorem publish_child_arguments_witness:
  "truthy (Some True) \<and>
   Popen ''/p/libfoo'' [''git'', ''push'', ''-q''] \<in>
     set (fst (publish_libs False ''/p'' (Some True) [(None, Node (Inr lib1) [] busy (Inr ()))])) \<and>
   no_push_all (Popen ''/p/libfoo'' [''git'', ''push'', ''-q'']) \<and>
   take 2 (fst (publish_libs False ''/p'' (Some True) [(None, Node (Inr lib1) [] busy (Inr ()))])) =
     [Progress, checking_action] \<and>
   \<not> truthy (Some False) \<and>
   checking_action \<notin> set (fst (publish_libs False ''/p'' (Some False) [(None, Node (Inr lib1) [] busy (Inr ()))]))"
proof -
  have t: "truthy (Some True)" and f: "\<not> truthy (Some False)" by (simp_all add: truthy_def)
  have m: "Popen ''/p/libfoo'' [''git'', ''push'', ''-q''] \<in>
     set (fst (publish_libs False ''/p'' (Some True) [(None, Node (Inr lib1) [] busy (Inr ()))]))"
    by (simp only: libs1_run fst_conv) simp
  from publish_child_arguments [where v = False and c = "''/p''" and a = "Some True"
      and child = "Node (Inr lib1) [] busy (Inr ())" and rest = "[]"
      and libs = "[(None, Node (Inr lib1) [] busy (Inr ()))]"]
    publish_child_arguments [where v = False and c = "''/p''" and a = "Some False"
      and child = "Node (Inr lib1) [] busy (Inr ())" and rest = "[]"
      and libs = "[(None, Node (Inr lib1) [] busy (Inr ()))]"] t f m
  show ?thesis by blast
qed

subsection \<open>The obsolescence pass of update\<close>

lemma below_append: "below d p \<Longrightarrow> below d (p @ s)"
proof -
  assume b: "below d p"
  then have "length (take (length d + 1) p) = length (d @ ''/'')"
    by (simp add: below_def)
  then have "length d + 1 \<le> length p" by simp
  then have "take (length d + 1) (p @ s) = take (length d + 1) p" by simp
  with b show ?thesis by (simp add: below_def)
qed

lemma isfile_rmtree: "isfile (rmtree d f) p \<Longrightarrow> isfile f p \<and> \<not> below d p"
  by (simp add: rmtree_def)

lemma isdir_rmtree: "isdir (rmtree d f) p \<longleftrightarrow> isdir f p \<and> p \<noteq> d \<and> \<not> below d p"
  by (simp add: rmtree_def)

lemma isfile_removals:
  "isfile (foldl (\<lambda>g l. rmtree (path l) g) f ls) p \<Longrightarrow> isfile f p"
  by (induction ls arbitrary: f) (auto dest: isfile_rmtree)

lemma justified_keeps:
  "justified f ls \<Longrightarrow> isfile (foldl (\<lambda>g l. rmtree (path l) g) f ls) (lib x) \<Longrightarrow>
   isdir f (path x) \<Longrightarrow> isdir (foldl (\<lambda>g l. rmtree (path l) g) f ls) (path x)"
proof (induction ls arbitrary: f)
  case Nil
  then show ?case by simp
next
  case (Cons l ls)
  from Cons.prems(1) have nf: "\<not> isfile f (lib l)" and j: "justified (rmtree (path l) f) ls"
    by simp_all
  from Cons.prems(2) have fin: "isfile (foldl (\<lambda>g l. rmtree (path l) g) (rmtree (path l) f) ls) (lib x)"
    by simp
  then have "isfile (rmtree (path l) f) (lib x)" by (rule isfile_removals)
  then have fx: "isfile f (lib x)" and nb: "\<not> below (path l) (lib x)"
    by (auto dest: isfile_rmtree)
  from fx nf have ne: "path x \<noteq> path l" by (auto simp: lib_def)
  from nb have nb': "\<not> below (path l) (path x)"
    using below_append [of "path l" "path x" "''.lib''"] by (auto simp: lib_def)
  from Cons.prems(3) ne nb' have "isdir (rmtree (path l) f) (path x)"
    by (simp add: isdir_rmtree)
  from Cons.IH [OF j fin this] show ?case by simp
qed

lemma remove_obsolete_trace:
  "remove_obsolete synced sh_at unignore r clean force ignore libs f = (f', removed, warnings, res) \<Longrightarrow>
   justified f removed \<and> f' = foldl (\<lambda>g l. rmtree (path l) g) f removed \<and> set removed \<subseteq> set libs"
proof (induction libs arbitrary: f f' removed warnings res)
  case Nil
  then show ?case by simp
next
  case (Cons l ls)
  show ?case
  proof (cases "\<not> isfile f (lib l) \<and> isdir f (path l)")
    case False
    with Cons.prems have "remove_obsolete synced sh_at unignore r clean force ignore ls f = (f', removed, warnings, res)"
      by simp
    from Cons.IH [OF this] show ?thesis by auto
  next
    case True
    show ?thesis
    proof (cases "fromrepo (Some (path l)) synced (path l)")
      case (Inl e)
      with True Cons.prems show ?thesis by simp
    next
      case (Inr lib_repo)
      show ?thesis
      proof (cases "can_update lib_repo (sh_at (path l)) clean force")
        case (Inl e)
        with True Inr Cons.prems show ?thesis by simp
      next
        case gate: (Inr gm)
        obtain gc msg where gm: "gm = (gc, msg)" by (cases gm)
        show ?thesis
        proof (cases gc)
          case allow: True
          show ?thesis
          proof (cases "unignore (relpath (path r) (path l))")
            case (Inl e)
            with True Inr gate gm allow Cons.prems show ?thesis by auto
          next
            case ok: (Inr u)
            obtain f2 rm2 w2 res2 where rec:
              "remove_obsolete synced sh_at unignore r clean force ignore ls (rmtree (path l) f) = (f2, rm2, w2, res2)"
              by (cases "remove_obsolete synced sh_at unignore r clean force ignore ls (rmtree (path l) f)") auto
            from True Inr gate gm allow ok rec Cons.prems
            have eq: "f' = f2" "removed = l # rm2" by simp_all
            from Cons.IH [OF rec] True eq show ?thesis by auto
          qed
        next
          case refuse: False
          show ?thesis
          proof (cases ignore)
            case True
            obtain f2 rm2 w2 res2 where rec:
              "remove_obsolete synced sh_at unignore r clean force ignore ls f = (f2, rm2, w2, res2)"
              by (cases "remove_obsolete synced sh_at unignore r clean force ignore ls f") auto
            from \<open>\<not> isfile f (lib l) \<and> isdir f (path l)\<close> Inr gate gm refuse True rec Cons.prems
            have eq: "f' = f2" "removed = rm2" by simp_all
            from Cons.IH [OF rec] eq show ?thesis by auto
          next
            case False
            with \<open>\<not> isfile f (lib l) \<and> isdir f (path l)\<close> Inr gate gm refuse Cons.prems
            show ?thesis by simp
          qed
        qed
      qed
    qed
  qed
qed

text \<open>
  Claim C6. Whatever the gate answers and whatever \<open>clean\<close>, \<open>force\<close> and \<open>ignore\<close> are,
  the pass changes the file system only by removing libraries of \<^verbatim>\<open>repo.libs\<close>, each at
  a moment when its reference file is absent and its directory present; a library whose
  reference file is present when it is examined is skipped, and a directory whose
  reference file is still there after the pass has not been removed.
\<close>

theorem remove_obsolete_safe:
  "remove_obsolete synced sh_at unignore r clean force ignore libs f = (f', removed, warnings, res) \<Longrightarrow>
   justified f removed \<and>
   f' = foldl (\<lambda>g l. rmtree (path l) g) f removed \<and>
   set removed \<subseteq> set libs \<and>
   (\<forall>x. isfile f' (lib x) \<and> isdir f (path x) \<longrightarrow> isdir f' (path x)) \<and>
   (\<forall>x. isfile f (lib x) \<longrightarrow>
      remove_obsolete synced sh_at unignore r clean force ignore (x # libs) f =
      remove_obsolete synced sh_at unignore r clean force ignore libs f)"
proof -
  assume run: "remove_obsolete synced sh_at unignore r clean force ignore libs f = (f', removed, warnings, res)"
  from remove_obsolete_trace [OF run]
  have j: "justified f removed" and fo: "f' = foldl (\<lambda>g l. rmtree (path l) g) f removed"
    and sub: "set removed \<subseteq> set libs"
    by simp_all
  have keep: "\<forall>x. isfile f' (lib x) \<and> isdir f (path x) \<longrightarrow> isdir f' (path x)"
    using justified_keeps [OF j] fo by blast
  have noop: "\<forall>x. isfile f (lib x) \<longrightarrow>
      remove_obsolete synced sh_at unignore r clean force ignore (x # libs) f =
      remove_obsolete synced sh_at unignore r clean force ignore libs f"
    by simp
  from j fo sub keep noop show ?thesis by (intro conjI)
qed

lemma fs1_run:
  "remove_obsolete (\<lambda>p. lib1) (\<lambda>p. quiet) (\<lambda>p. Inr ()) prog1 False False False [lib1, libbar] fs1 =
     (rmtree ''/p/libfoo'' fs1, [lib1], [], Inr ())"
  by (simp add: lib1_def libbar_def fs1_def lib_def fromrepo_def can_update_def repo_dirty_def
      repo_outgoing_def scm_dirty_def scm_outgoing_def Git_dirty_def Git_outgoing_def pquery_def
      quiet_def rmtree_def below_def)

theorem remove_obsolete_safe_witness:
  "remove_obsolete (\<lambda>p. lib1) (\<lambda>p. quiet) (\<lambda>p. Inr ()) prog1 False False False [lib1, libbar] fs1 =
     (rmtree ''/p/libfoo'' fs1, [lib1], [], Inr ()) \<and>
   justified fs1 [lib1] \<and>
   isfile (rmtree ''/p/libfoo'' fs1) (lib libbar) \<and>
   isdir (rmtree ''/p/libfoo'' fs1) (path libbar) \<and>
   \<not> isdir (rmtree ''/p/libfoo'' fs1) (path lib1)"
proof -
  have a: "isfile (rmtree ''/p/libfoo'' fs1) (lib libbar)"
    by (simp add: rmtree_def fs1_def lib_def libbar_def below_def)
  have b: "isdir fs1 (path libbar)" by (simp add: fs1_def libbar_def)
  have c: "\<not> isdir (rmtree ''/p/libfoo'' fs1) (path lib1)"
    by (simp add: rmtree_def lib1_def)
  from remove_obsolete_safe [OF fs1_run] a b c fs1_run show ?thesis by blast
qed

subsection \<open>The configuration file\<close>

text \<open>
  Claim C5. After \<^verbatim>\<open>set_cfg(k, v)\<close>, \<^verbatim>\<open>get_cfg(k)\<close> should return \<open>v\<close> whatever the file held
  before. The loop of \<^verbatim>\<open>set_cfg\<close> removes lines from the list it iterates over, so the
  line after a removed one is skipped: with two \<^verbatim>\<open>TARGET\<close> lines the second survives,
  stays in front of the new line, and is what \<^verbatim>\<open>get_cfg\<close> returns.
\<close>

theorem set_cfg_repeated_key:
  "set_cfg (Some ''TARGET=a\<newline>TARGET=b\<newline>'') ''TARGET'' ''c'' = ''TARGET=b\<newline>TARGET=c\<newline>'' \<and>
   get_cfg (Some (set_cfg (Some ''TARGET=a\<newline>TARGET=b\<newline>'') ''TARGET'' ''c'')) ''TARGET'' None = Some ''b''"
  by code_simp

end
